theory Spec2Isabelle
  imports Main "HOL-Library.Sublist"
begin

section \<open>Toolkit value types used by both surfaces\<close>

text \<open>
  \<open>Qt::CheckState\<close>, the item flags the two files set, and the variant type that
  \<open>data\<close> returns and \<open>setData\<close> receives. A variant is modelled by the kinds of
  value the two files put into one: nothing (\<open>QVariant()\<close>), a bool, a string, a
  check state and a brush of one colour.
\<close>

datatype CheckState = Unchecked | PartiallyChecked | Checked

datatype ItemFlag = ItemIsSelectable | ItemIsDragEnabled | ItemIsUserCheckable | ItemIsEnabled

datatype QVariant =
    NullVariant
  | VBool bool
  | VString string
  | VCheckState CheckState
  | VBrush nat nat nat

text \<open>\<open>QVariant::toString\<close> and \<open>QVariant::toBool\<close> on the kinds above.\<close>

fun toString :: "QVariant \<Rightarrow> string" where
  "toString (VString s) = s"
| "toString (VBool b) = (if b then ''true'' else ''false'')"
| "toString (VCheckState Unchecked) = ''0''"
| "toString (VCheckState PartiallyChecked) = ''1''"
| "toString (VCheckState Checked) = ''2''"
| "toString NullVariant = []"
| "toString (VBrush r g b) = []"

fun toBool :: "QVariant \<Rightarrow> bool" where
  "toBool (VBool b) = b"
| "toBool (VCheckState c) = (c \<noteq> Unchecked)"
| "toBool (VString s) = (s \<noteq> [] \<and> s \<noteq> ''0'' \<and> s \<noteq> ''false'')"
| "toBool NullVariant = False"
| "toBool (VBrush r g b) = False"

text \<open>
  What the C++ leaves undefined is a value of the model: an array subscript outside
  the array, and a call through the null pointer that \<open>QListWidget::item\<close> returns
  for a row the list does not have.
\<close>

datatype fault = OutOfBounds | NullDereference


section \<open>The install dialog (\<open>install_dialog.cpp\<close>)\<close>

text \<open>
  A \<open>QListWidgetItem\<close> as the constructor fills it: the displayed text, the value
  stored under \<open>Qt::UserRole\<close>, the flags and the check state.
\<close>

record QListWidgetItem =
  item_text :: string
  data_UserRole :: QVariant
  item_flags :: "ItemFlag set"
  checkState :: CheckState

text \<open>
  The list widget: its items in row order, and the two widths the file touches,
  the minimum width (\<open>setMinimumWidth\<close>) and the current width (\<open>width()\<close>).
\<close>

record QListWidget =
  items :: "QListWidgetItem list"
  minimumWidth :: int
  width :: int

datatype DialogCode = Rejected | Accepted

record InstallDialog =
  file_list :: QListWidget
  result_code :: DialogCode

text \<open>
  \<open>QFileInfo(file).fileName()\<close>: the part of the path after its last \<open>/\<close>.
\<close>

definition fileName :: "string \<Rightarrow> string" where
  "fileName file = rev (takeWhile (\<lambda>c. c \<noteq> CHR ''/'') (rev file))"

text \<open>
  A new item (\<open>new QListWidgetItem(text, file_list)\<close>) has the toolkit's default
  flags, no user data and is unchecked; the loop body of the constructor then sets
  the data, adds \<open>ItemIsUserCheckable\<close> and checks the item.
\<close>

definition new_QListWidgetItem :: "string \<Rightarrow> QListWidgetItem" where
  "new_QListWidgetItem t =
     \<lparr>item_text = t, data_UserRole = NullVariant,
      item_flags = {ItemIsSelectable, ItemIsUserCheckable, ItemIsEnabled, ItemIsDragEnabled},
      checkState = Unchecked\<rparr>"

definition make_item :: "string \<Rightarrow> QListWidgetItem" where
  "make_item file =
     (let item0 = new_QListWidgetItem (fileName file);
          item1 = item0\<lparr>data_UserRole := VString file\<rparr>;
          item2 = item1\<lparr>item_flags := item_flags item1 \<union> {ItemIsUserCheckable}\<rparr>
      in item2\<lparr>checkState := Checked\<rparr>)"

text \<open>The \<open>for (const QString& file : files)\<close> loop: one item appended per path.\<close>

fun add_items :: "QListWidgetItem list \<Rightarrow> string list \<Rightarrow> QListWidgetItem list" where
  "add_items its [] = its"
| "add_items its (file # files) = add_items (its @ [make_item file]) files"

text \<open>
  \<open>QWidget::setMinimumWidth\<close>: a negative width is taken as 0, and a widget narrower
  than its new minimum is widened to it.
\<close>

definition setMinimumWidth :: "int \<Rightarrow> QListWidget \<Rightarrow> QListWidget" where
  "setMinimumWidth minw w =
     w\<lparr>minimumWidth := max minw 0, width := max (width w) (max minw 0)\<rparr>"

text \<open>C++ \<open>/\<close> on \<open>int\<close> rounds towards zero.\<close>

definition cdiv :: "int \<Rightarrow> int \<Rightarrow> int" where
  "cdiv a b = sgn a * sgn b * (\<bar>a\<bar> div \<bar>b\<bar>)"

text \<open>
  The constructor. The toolkit supplies two things the file does not compute:
  \<open>sizeHintForColumn\<close>, the width in pixels that column 0 of the list asks for, and
  \<open>width0\<close>, the width the new list widget has before anything resizes it. The
  product \<open>sizeHintForColumn(0) * 11\<close> is an \<open>int\<close> product in the source; pixel
  widths are far from the 32-bit bound, and the model multiplies in \<open>int\<close>.
\<close>

definition InstallDialog ::
  "(QListWidgetItem list \<Rightarrow> int) \<Rightarrow> int \<Rightarrow> string list \<Rightarrow> InstallDialog" where
  "InstallDialog sizeHintForColumn width0 files =
     (let fl0 = \<lparr>items = add_items [] files, minimumWidth = 0, width = width0\<rparr>;
          fl1 = setMinimumWidth (cdiv (sizeHintForColumn (items fl0) * 11) 10) fl0
      in \<lparr>file_list = fl1, result_code = Rejected\<rparr>)"

text \<open>\<open>QListWidget::count\<close> and \<open>QListWidget::item\<close> (null outside the rows).\<close>

definition count :: "QListWidget \<Rightarrow> int" where
  "count fl = int (length (items fl))"

definition item :: "QListWidget \<Rightarrow> int \<Rightarrow> QListWidgetItem option" where
  "item fl i = (if 0 \<le> i \<and> i < count fl then Some (items fl ! nat i) else None)"

text \<open>
  \<open>GetFiles\<close>: the loop \<open>for (int i = 0; i < file_list->count(); ++i)\<close>, with the
  list \<open>files\<close> built so far as accumulator. Dereferencing a null item is a fault.
\<close>

function GetFiles_loop :: "QListWidget \<Rightarrow> int \<Rightarrow> string list \<Rightarrow> fault + string list" where
  "GetFiles_loop fl i files =
     (if i < count fl then
        (case item fl i of
           None \<Rightarrow> Inl NullDereference
         | Some it \<Rightarrow>
             GetFiles_loop fl (i + 1)
               (if checkState it = Checked then files @ [toString (data_UserRole it)]
                else files))
      else Inr files)"
  by pat_completeness auto
termination
  by (relation "measure (\<lambda>(fl, i, files). nat (count fl - i))") auto

definition GetFiles :: "InstallDialog \<Rightarrow> fault + string list" where
  "GetFiles d = GetFiles_loop (file_list d) 0 []"

definition GetMinimumWidth :: "InstallDialog \<Rightarrow> int" where
  "GetMinimumWidth d = width (file_list d)"

text \<open>
  What happens to a dialog between construction and the call of \<open>GetFiles\<close>: the
  user (or code) sets the check state of a row, the layout resizes the list, and the
  two buttons run \<open>QDialog::accept\<close> and \<open>QDialog::reject\<close>.
\<close>

definition setCheckState :: "nat \<Rightarrow> CheckState \<Rightarrow> InstallDialog \<Rightarrow> InstallDialog" where
  "setCheckState i c d =
     (if i < length (items (file_list d)) then
        d\<lparr>file_list := (file_list d)\<lparr>items :=
             (items (file_list d))[i := (items (file_list d) ! i)\<lparr>checkState := c\<rparr>]\<rparr>\<rparr>
      else d)"

fun setCheckStates :: "(nat \<times> CheckState) list \<Rightarrow> InstallDialog \<Rightarrow> InstallDialog" where
  "setCheckStates [] d = d"
| "setCheckStates ((i, c) # ops) d = setCheckStates ops (setCheckState i c d)"

definition resize :: "int \<Rightarrow> InstallDialog \<Rightarrow> InstallDialog" where
  "resize w d =
     d\<lparr>file_list := (file_list d)\<lparr>width := max w (minimumWidth (file_list d))\<rparr>\<rparr>"

definition accept :: "InstallDialog \<Rightarrow> InstallDialog" where
  "accept d = d\<lparr>result_code := Accepted\<rparr>"

definition reject :: "InstallDialog \<Rightarrow> InstallDialog" where
  "reject d = d\<lparr>result_code := Rejected\<rparr>"


section \<open>The breakpoint list model and its dock widget (\<open>graphics_breakpoints.cpp\<close>)\<close>

text \<open>
  Modelled from the spec: the declaration of \<open>Tegra::DebugContext::Event\<close> is in a
  header that is not among the sources. The spec gives a closed enumeration of four
  event kinds in display order, followed by a sentinel count that sizes the model;
  the source file names the same five enumerators. \<open>Event_to_int\<close> is
  \<open>static_cast<int>\<close>, and \<open>Event_of_int\<close> is \<open>static_cast<Event>\<close> of a row:
  \<open>None\<close> stands for a value of the enumeration's integer range that no enumerator
  names.
\<close>

datatype Event =
    MaxwellCommandLoaded
  | MaxwellCommandProcessed
  | IncomingPrimitiveBatch
  | FinishedPrimitiveBatch
  | NumEvents

fun Event_to_int :: "Event \<Rightarrow> int" where
  "Event_to_int MaxwellCommandLoaded = 0"
| "Event_to_int MaxwellCommandProcessed = 1"
| "Event_to_int IncomingPrimitiveBatch = 2"
| "Event_to_int FinishedPrimitiveBatch = 3"
| "Event_to_int NumEvents = 4"

definition Event_of_int :: "int \<Rightarrow> Event option" where
  "Event_of_int r =
     (if r = 0 then Some MaxwellCommandLoaded
      else if r = 1 then Some MaxwellCommandProcessed
      else if r = 2 then Some IncomingPrimitiveBatch
      else if r = 3 then Some FinishedPrimitiveBatch
      else if r = 4 then Some NumEvents
      else None)"

text \<open>
  Modelled from the spec: the declaration of \<open>Tegra::DebugContext\<close> is in the same
  missing header. The spec gives it a table with one \<open>enabled\<close> flag per event
  kind and the two fields \<open>at_breakpoint\<close> and \<open>active_breakpoint\<close>; the source
  file reads and writes exactly these. The table is an array: subscripting it
  outside its length is a fault of the model (\<open>in_bounds\<close>).
\<close>

record BreakPoint =
  enabled :: bool

record DebugContext =
  ctx_at_breakpoint :: bool
  ctx_active_breakpoint :: Event
  breakpoints :: "BreakPoint list"

definition in_bounds :: "'a list \<Rightarrow> int \<Rightarrow> bool" where
  "in_bounds xs i = (0 \<le> i \<and> i < int (length xs))"

text \<open>
  The roles \<open>data\<close> and \<open>setData\<close> switch on; every other role of the toolkit is
  \<open>OtherRole\<close> with its number. A model index is its row, its column and whether it
  belongs to a model: \<open>createIndex\<close> makes one that does, \<open>QModelIndex()\<close> is the
  index with row and column \<open>-1\<close> that does not.
\<close>

datatype ItemDataRole = DisplayRole | CheckStateRole | BackgroundRole | Role_IsEnabled | OtherRole int

record QModelIndex =
  row :: int
  column :: int
  has_model :: bool

definition createIndex :: "int \<Rightarrow> int \<Rightarrow> QModelIndex" where
  "createIndex r c = \<lparr>row = r, column = c, has_model = True\<rparr>"

definition QModelIndex_invalid :: QModelIndex where
  "QModelIndex_invalid = \<lparr>row = - 1, column = - 1, has_model = False\<rparr>"

definition isValid :: "QModelIndex \<Rightarrow> bool" where
  "isValid index = (0 \<le> row index \<and> 0 \<le> column index \<and> has_model index)"

text \<open>
  The state the file works on. The debug context is one shared object that the
  model and the widget both reach through a weak pointer: \<open>context_weak\<close> is what
  \<open>context_weak.lock()\<close> yields, \<open>None\<close> once the context is gone. The fields
  \<open>at_breakpoint\<close> and \<open>active_breakpoint\<close> are the model's cached copies. The
  widget contributes the status text and whether the Resume button is enabled.
  \<open>emitted\<close> is the trace of \<open>dataChanged\<close> emissions, oldest first; each entry
  also records the model's two cached fields at the moment of the emission, which
  is what a slot connected to the signal reads when it repaints.
\<close>

record DataChanged =
  topLeft :: QModelIndex
  bottomRight :: QModelIndex
  at_breakpoint_then :: bool
  active_breakpoint_then :: Event

record panel =
  context_weak :: "DebugContext option"
  at_breakpoint :: bool
  active_breakpoint :: Event
  emitted :: "DataChanged list"
  status_text :: string
  resume_button_enabled :: bool

definition emit_dataChanged :: "QModelIndex \<Rightarrow> QModelIndex \<Rightarrow> panel \<Rightarrow> panel" where
  "emit_dataChanged top_left bottom_right s =
     s\<lparr>emitted := emitted s @
        [\<lparr>topLeft = top_left, bottomRight = bottom_right,
          at_breakpoint_then = at_breakpoint s,
          active_breakpoint_then = active_breakpoint s\<rparr>]\<rparr>"

text \<open>
  The two constructors together: the model copies the context's two fields, the
  widget starts with the text "Emulation running" and a disabled Resume button.
\<close>

definition GraphicsBreakPointsWidget :: "DebugContext \<Rightarrow> panel" where
  "GraphicsBreakPointsWidget debug_context =
     \<lparr>context_weak = Some debug_context,
      at_breakpoint = ctx_at_breakpoint debug_context,
      active_breakpoint = ctx_active_breakpoint debug_context,
      emitted = [],
      status_text = ''Emulation running'',
      resume_button_enabled = False\<rparr>"

definition columnCount :: int where
  "columnCount = 1"

definition rowCount :: int where
  "rowCount = Event_to_int NumEvents"

text \<open>The static table of \<open>data\<close>: four entries, none for \<open>NumEvents\<close>.\<close>

definition display_map :: "Event \<Rightarrow> string option" where
  "display_map =
     [MaxwellCommandLoaded \<mapsto> ''Maxwell command loaded'',
      MaxwellCommandProcessed \<mapsto> ''Maxwell command processed'',
      IncomingPrimitiveBatch \<mapsto> ''Incoming primitive batch'',
      FinishedPrimitiveBatch \<mapsto> ''Finished primitive batch'']"

text \<open>
  \<open>BreakPointModel::data\<close>. The branch for \<open>Role_IsEnabled\<close> is a function of its
  own because the branch for \<open>CheckStateRole\<close> calls it. In
  \<open>context && context->breakpoints[(int)event].enabled\<close> the table is subscripted
  only when the context is there. No branch asks whether the index is valid; the
  branch for \<open>BackgroundRole\<close> and the one for \<open>Role_IsEnabled\<close> do not look at
  the column.
\<close>

definition data_Role_IsEnabled :: "panel \<Rightarrow> QModelIndex \<Rightarrow> fault + QVariant" where
  "data_Role_IsEnabled s index =
     (case context_weak s of
        None \<Rightarrow> Inr (VBool False)
      | Some context \<Rightarrow>
          if in_bounds (breakpoints context) (row index)
          then Inr (VBool (enabled (breakpoints context ! nat (row index))))
          else Inl OutOfBounds)"

definition data :: "panel \<Rightarrow> QModelIndex \<Rightarrow> ItemDataRole \<Rightarrow> fault + QVariant" where
  "data s index role =
     (case role of
        DisplayRole \<Rightarrow>
          if column index = 0 then
            Inr (VString
              (case Event_of_int (row index) of
                 None \<Rightarrow> []
               | Some event \<Rightarrow> (case display_map event of Some t \<Rightarrow> t | None \<Rightarrow> [])))
          else Inr NullVariant
      | CheckStateRole \<Rightarrow>
          if column index = 0 then
            (case data_Role_IsEnabled s index of
               Inl f \<Rightarrow> Inl f
             | Inr v \<Rightarrow> Inr (VCheckState (if toBool v then Checked else Unchecked)))
          else Inr NullVariant
      | BackgroundRole \<Rightarrow>
          if at_breakpoint s \<and> row index = Event_to_int (active_breakpoint s)
          then Inr (VBrush 0xE0 0xE0 0x10)
          else Inr NullVariant
      | Role_IsEnabled \<Rightarrow> data_Role_IsEnabled s index
      | OtherRole n \<Rightarrow> Inr NullVariant)"

definition flags :: "QModelIndex \<Rightarrow> ItemFlag set" where
  "flags index =
     (if \<not> isValid index then {}
      else {ItemIsEnabled} \<union> (if column index = 0 then {ItemIsUserCheckable} else {}))"

text \<open>
  \<open>BreakPointModel::setData\<close>: the returned bool and the state after the call. The
  stored flag is \<open>value == Qt::Checked\<close>, so every value other than the checked
  state stores \<open>false\<close>.
\<close>

definition setData ::
  "QModelIndex \<Rightarrow> QVariant \<Rightarrow> ItemDataRole \<Rightarrow> panel \<Rightarrow> fault + (bool \<times> panel)" where
  "setData index v role s =
     (case role of
        CheckStateRole \<Rightarrow>
          if column index \<noteq> 0 then Inr (False, s)
          else
            (case context_weak s of
               None \<Rightarrow> Inr (False, s)
             | Some context \<Rightarrow>
                 if in_bounds (breakpoints context) (row index) then
                   (let bps = (breakpoints context)
                          [nat (row index) :=
                             (breakpoints context ! nat (row index))
                               \<lparr>enabled := (v = VCheckState Checked)\<rparr>];
                        s1 = s\<lparr>context_weak := Some (context\<lparr>breakpoints := bps\<rparr>)\<rparr>;
                        changed_index = createIndex (row index) 0
                    in Inr (True, emit_dataChanged changed_index changed_index s1))
                 else Inl OutOfBounds)
      | _ \<Rightarrow> Inr (False, s))"

text \<open>The model's two slots, statement by statement in the order of the source.\<close>

definition BreakPointModel_OnBreakPointHit :: "Event \<Rightarrow> panel \<Rightarrow> panel" where
  "BreakPointModel_OnBreakPointHit event s =
     (case context_weak s of
        None \<Rightarrow> s
      | Some context \<Rightarrow>
          (let s1 = s\<lparr>active_breakpoint := ctx_active_breakpoint context\<rparr>;
               s2 = s1\<lparr>at_breakpoint := ctx_at_breakpoint context\<rparr>
           in emit_dataChanged (createIndex (Event_to_int event) 0)
                (createIndex (Event_to_int event) 0) s2))"

definition BreakPointModel_OnResumed :: "panel \<Rightarrow> panel" where
  "BreakPointModel_OnResumed s =
     (case context_weak s of
        None \<Rightarrow> s
      | Some context \<Rightarrow>
          (let s1 = s\<lparr>at_breakpoint := ctx_at_breakpoint context\<rparr>;
               s2 = emit_dataChanged (createIndex (Event_to_int (active_breakpoint s1)) 0)
                      (createIndex (Event_to_int (active_breakpoint s1)) 0) s1
           in s2\<lparr>active_breakpoint := ctx_active_breakpoint context\<rparr>))"

text \<open>
  The widget's slots, and the two observer callbacks: each emits a signal to which
  the constructor has connected the widget's slot first and the model's slot
  second. The model runs the slots in that order; on which thread they run and
  whether the emitter waits for them is outside it.
\<close>

definition Widget_OnBreakPointHit :: "Event \<Rightarrow> panel \<Rightarrow> panel" where
  "Widget_OnBreakPointHit event s =
     s\<lparr>status_text := ''Emulation halted at breakpoint'', resume_button_enabled := True\<rparr>"

definition Widget_OnResumed :: "panel \<Rightarrow> panel" where
  "Widget_OnResumed s =
     s\<lparr>status_text := ''Emulation running'', resume_button_enabled := False\<rparr>"

definition OnMaxwellBreakPointHit :: "Event \<Rightarrow> panel \<Rightarrow> panel" where
  "OnMaxwellBreakPointHit event s =
     BreakPointModel_OnBreakPointHit event (Widget_OnBreakPointHit event s)"

definition OnMaxwellResume :: "panel \<Rightarrow> panel" where
  "OnMaxwellResume s = BreakPointModel_OnResumed (Widget_OnResumed s)"

text \<open>
  \<open>OnResumeRequested\<close>. \<open>DebugContext::Resume\<close> is not among the sources; what it
  does to the context is the parameter \<open>Resume\<close>.
\<close>

definition OnResumeRequested :: "(DebugContext \<Rightarrow> DebugContext) \<Rightarrow> panel \<Rightarrow> panel" where
  "OnResumeRequested Resume s =
     (case context_weak s of
        None \<Rightarrow> s
      | Some context \<Rightarrow> s\<lparr>context_weak := Some (Resume context)\<rparr>)"

text \<open>
  \<open>OnItemDoubleClicked\<close>. \<open>model()->index(row, 0)\<close> is the list model's own
  \<open>index\<close>: the index of a cell the model has, the invalid index otherwise.
\<close>

definition model_index :: "int \<Rightarrow> int \<Rightarrow> QModelIndex" where
  "model_index r c =
     (if 0 \<le> r \<and> r < rowCount \<and> 0 \<le> c \<and> c < columnCount then createIndex r c
      else QModelIndex_invalid)"

definition OnItemDoubleClicked :: "QModelIndex \<Rightarrow> panel \<Rightarrow> fault + panel" where
  "OnItemDoubleClicked index s =
     (if \<not> isValid index then Inr s
      else
        (let check_index = model_index (row index) 0 in
         case data s check_index CheckStateRole of
           Inl f \<Rightarrow> Inl f
         | Inr enabled_v \<Rightarrow>
             (let new_state = (if enabled_v = VCheckState Unchecked then Checked else Unchecked) in
              case setData check_index (VCheckState new_state) CheckStateRole s of
                Inl f \<Rightarrow> Inl f
              | Inr (ok, s1) \<Rightarrow> Inr s1)))"

text \<open>
  The two operations the specification names on a row: \<open>set_check_state\<close> is the
  call \<open>OnItemDoubleClicked\<close> makes, \<open>setData\<close> on column 0 of the row with role
  \<open>CheckStateRole\<close> and the value \<open>Qt::Checked\<close> or \<open>Qt::Unchecked\<close>;
  \<open>check_state\<close> is \<open>data\<close> on the same cell with the same role. A sequence of
  writes stops at the first fault; \<open>last_written\<close> is the value of the last write to
  a row in a sequence, if there is one.
\<close>

definition set_check_state :: "int \<Rightarrow> bool \<Rightarrow> panel \<Rightarrow> fault + (bool \<times> panel)" where
  "set_check_state r checked s =
     setData (createIndex r 0) (VCheckState (if checked then Checked else Unchecked))
       CheckStateRole s"

definition check_state :: "int \<Rightarrow> panel \<Rightarrow> fault + QVariant" where
  "check_state r s = data s (createIndex r 0) CheckStateRole"

fun set_check_states :: "(int \<times> bool) list \<Rightarrow> panel \<Rightarrow> fault + panel" where
  "set_check_states [] s = Inr s"
| "set_check_states ((r, checked) # ws) s =
     (case set_check_state r checked s of
        Inl f \<Rightarrow> Inl f
      | Inr (ok, s1) \<Rightarrow> set_check_states ws s1)"

fun last_written :: "int \<Rightarrow> (int \<times> bool) list \<Rightarrow> bool option" where
  "last_written k [] = None"
| "last_written k ((r, checked) # ws) =
     (case last_written k ws of
        Some x \<Rightarrow> Some x
      | None \<Rightarrow> if r = k then Some checked else None)"


text \<open>
  Concrete states for the examples: a running context with all four breakpoints
  disabled, a panel halted at \<open>MaxwellCommandProcessed\<close> whose context has
  already left the breakpoint, and the same panel after the context is gone.
\<close>

definition all_disabled :: DebugContext where
  "all_disabled =
     \<lparr>ctx_at_breakpoint = False, ctx_active_breakpoint = MaxwellCommandLoaded,
      breakpoints = replicate 4 \<lparr>enabled = False\<rparr>\<rparr>"

definition halted_panel :: panel where
  "halted_panel =
     (GraphicsBreakPointsWidget all_disabled)
       \<lparr>at_breakpoint := True, active_breakpoint := MaxwellCommandProcessed,
        status_text := ''Emulation halted at breakpoint'', resume_button_enabled := True\<rparr>"

definition dead_panel :: panel where
  "dead_panel = halted_panel\<lparr>context_weak := None\<rparr>"



text \<open>
  An index that is no cell of the model, in the words of the error taxonomy: its
  row is outside \<open>0 .. rowCount - 1\<close> or its column is not 0.
\<close>

definition invalid_index :: "QModelIndex \<Rightarrow> bool" where
  "invalid_index index = (row index < 0 \<or> rowCount \<le> row index \<or> column index \<noteq> 0)"


section \<open>Properties of the install dialog\<close>

text \<open>The paths of the checked items of a list, in row order.\<close>

definition checked_paths :: "QListWidgetItem list \<Rightarrow> string list" where
  "checked_paths its =
     map (\<lambda>it. toString (data_UserRole it)) (filter (\<lambda>it. checkState it = Checked) its)"

lemma GetFiles_loop_drop:
  "0 \<le> i \<Longrightarrow>
   GetFiles_loop fl i files = Inr (files @ checked_paths (drop (nat i) (items fl)))"
proof (induction fl i files rule: GetFiles_loop.induct)
  case (1 fl i files)
  show ?case
  proof (cases "i < count fl")
    case False
    then have "drop (nat i) (items fl) = []"
      using "1.prems" by (simp add: count_def)
    with False show ?thesis
      by (simp add: checked_paths_def)
  next
    case True
    then have lt: "nat i < length (items fl)"
      using "1.prems" by (simp add: count_def)
    have it: "item fl i = Some (items fl ! nat i)"
      using True "1.prems" by (simp add: item_def)
    have dr: "drop (nat i) (items fl) = (items fl ! nat i) # drop (nat (i + 1)) (items fl)"
      using lt "1.prems" by (simp add: Cons_nth_drop_Suc nat_add_distrib)
    have ih: "GetFiles_loop fl (i + 1)
                (if checkState (items fl ! nat i) = Checked
                 then files @ [toString (data_UserRole (items fl ! nat i))] else files)
              = Inr ((if checkState (items fl ! nat i) = Checked
                      then files @ [toString (data_UserRole (items fl ! nat i))] else files)
                     @ checked_paths (drop (nat (i + 1)) (items fl)))"
      using "1.IH"[OF True it] "1.prems" by simp
    show ?thesis
      using True it ih dr by (simp add: checked_paths_def)
  qed
qed

lemma GetFiles_eq: "GetFiles d = Inr (checked_paths (items (file_list d)))"
  using GetFiles_loop_drop[of 0 "file_list d" "[]"] by (simp add: GetFiles_def)

lemma add_items_eq: "add_items its files = its @ map make_item files"
  by (induction its files rule: add_items.induct) simp_all

lemma items_InstallDialog:
  "items (file_list (InstallDialog h w0 files)) = map make_item files"
  by (simp add: InstallDialog_def Let_def setMinimumWidth_def add_items_eq)

lemma checked_paths_make_item: "checked_paths (map make_item files) = files"
  by (induction files) (simp_all add: checked_paths_def make_item_def Let_def)

text \<open>
  C7. Right after construction every item is checked, and \<open>GetFiles\<close> on the
  untouched dialog, before or after it is accepted, returns the constructor's list
  of paths as it was given. The rows show the file names of the paths.
\<close>

theorem GetFiles_fresh_dialog:
  "map checkState (items (file_list (InstallDialog sizeHintForColumn width0 files)))
     = replicate (length files) Checked
   \<and> GetFiles (InstallDialog sizeHintForColumn width0 files) = Inr files
   \<and> GetFiles (accept (InstallDialog sizeHintForColumn width0 files)) = Inr files
   \<and> map item_text (items (file_list (InstallDialog sizeHintForColumn width0 files)))
     = map fileName files"
proof -
  have "map checkState (map make_item files) = replicate (length files) Checked"
    by (induction files) (simp_all add: make_item_def Let_def)
  moreover have "map item_text (map make_item files) = map fileName files"
    by (simp add: make_item_def Let_def new_QListWidgetItem_def)
  ultimately show ?thesis
    by (simp add: items_InstallDialog GetFiles_eq checked_paths_make_item accept_def)
qed


lemma setCheckState_paths:
  "map data_UserRole (items (file_list (setCheckState i c d)))
     = map data_UserRole (items (file_list d))"
  by (simp add: setCheckState_def map_update list_update_same_conv)

lemma setCheckStates_paths:
  "map data_UserRole (items (file_list (setCheckStates ops d)))
     = map data_UserRole (items (file_list d))"
  by (induction ops d rule: setCheckStates.induct) (simp_all add: setCheckState_paths)

lemma checked_paths_zip:
  "checked_paths its =
     map fst (filter (\<lambda>p. snd p = Checked)
       (zip (map (\<lambda>it. toString (data_UserRole it)) its) (map checkState its)))"
  by (induction its) (simp_all add: checked_paths_def)

lemma paths_make_item: "map data_UserRole (map make_item files) = map VString files"
  by (simp add: make_item_def Let_def comp_def)

lemma dialog_paths:
  "map (\<lambda>it. toString (data_UserRole it))
     (items (file_list (setCheckStates ops (InstallDialog h w0 files)))) = files"
proof -
  have "map (\<lambda>it. toString (data_UserRole it))
          (items (file_list (setCheckStates ops (InstallDialog h w0 files))))
        = map toString (map data_UserRole
            (items (file_list (setCheckStates ops (InstallDialog h w0 files)))))"
    by (simp add: comp_def)
  also have "\<dots> = map toString (map VString files)"
    by (simp only: setCheckStates_paths items_InstallDialog paths_make_item)
  also have "\<dots> = files"
    by (simp add: comp_def)
  finally show ?thesis .
qed

text \<open>
  C6. Whatever check states the rows are given after construction, \<open>GetFiles\<close>
  returns the constructor's paths whose row is checked at the time of the call, in
  the constructor's order: the paths are paired with the rows' check states and the
  pairs with state \<open>Checked\<close> are kept. The result is a subsequence of the input.
\<close>

theorem GetFiles_checked_in_order:
  "length (items (file_list (setCheckStates ops (InstallDialog sizeHintForColumn width0 files))))
     = length files
   \<and> GetFiles (setCheckStates ops (InstallDialog sizeHintForColumn width0 files))
     = Inr (map fst (filter (\<lambda>p. snd p = Checked)
         (zip files (map checkState (items (file_list
            (setCheckStates ops (InstallDialog sizeHintForColumn width0 files))))))))
   \<and> subseq
       (map fst (filter (\<lambda>p. snd p = Checked)
         (zip files (map checkState (items (file_list
            (setCheckStates ops (InstallDialog sizeHintForColumn width0 files))))))))
       files"
proof -
  let ?d = "setCheckStates ops (InstallDialog sizeHintForColumn width0 files)"
  let ?its = "items (file_list ?d)"
  have paths: "map (\<lambda>it. toString (data_UserRole it)) ?its = files"
    by (rule dialog_paths)
  have len: "length ?its = length files"
    using arg_cong[OF paths, of length] by simp
  have res: "checked_paths ?its
      = map fst (filter (\<lambda>p. snd p = Checked) (zip files (map checkState ?its)))"
    using checked_paths_zip[of ?its] by (simp only: paths)
  have "subseq (checked_paths ?its) (map (\<lambda>it. toString (data_UserRole it)) ?its)"
    unfolding checked_paths_def by (rule subseq_map) simp
  then have sub: "subseq (checked_paths ?its) files"
    by (simp only: paths)
  show ?thesis
    using len res sub by (simp only: GetFiles_eq)
qed

text \<open>Every assignment of check states to the rows is reached by setting them row by row.\<close>

lemma states_setCheckState:
  "i < length (items (file_list d)) \<Longrightarrow>
   map checkState (items (file_list (setCheckState i c d)))
     = (map checkState (items (file_list d)))[i := c]"
  by (simp add: setCheckState_def map_update)

lemma length_setCheckState:
  "length (items (file_list (setCheckState i c d))) = length (items (file_list d))"
  by (simp add: setCheckState_def)

lemma setCheckStates_reaches_from:
  "k + length cs = length (items (file_list d)) \<Longrightarrow>
   map checkState (items (file_list (setCheckStates (zip [k..<k + length cs] cs) d)))
     = take k (map checkState (items (file_list d))) @ cs"
proof (induction cs arbitrary: d k)
  case Nil
  then show ?case by simp
next
  case (Cons c cs)
  let ?d = "setCheckState k c d"
  have lt: "k < length (items (file_list d))"
    using Cons.prems by simp
  have len: "Suc k + length cs = length (items (file_list ?d))"
    using Cons.prems by (simp add: length_setCheckState)
  have ops: "zip [k..<k + length (c # cs)] (c # cs) = (k, c) # zip [Suc k..<Suc k + length cs] cs"
    by (simp add: upt_conv_Cons del: upt_Suc)
  have "map checkState (items (file_list (setCheckStates (zip [k..<k + length (c # cs)] (c # cs)) d)))
        = map checkState (items (file_list (setCheckStates (zip [Suc k..<Suc k + length cs] cs) ?d)))"
    by (simp only: ops setCheckStates.simps)
  also have "\<dots> = take (Suc k) (map checkState (items (file_list ?d))) @ cs"
    by (rule Cons.IH[OF len])
  also have "\<dots> = take (Suc k) ((map checkState (items (file_list d)))[k := c]) @ cs"
    by (simp only: states_setCheckState[OF lt])
  also have "\<dots> = take k (map checkState (items (file_list d))) @ c # cs"
    using lt by (simp add: take_Suc_conv_app_nth)
  finally show ?case .
qed

lemma setCheckStates_reaches:
  "length cs = length files \<Longrightarrow>
   map checkState (items (file_list
     (setCheckStates (zip [0..<length cs] cs) (InstallDialog h w0 files)))) = cs"
  using setCheckStates_reaches_from[of 0 cs "InstallDialog h w0 files"]
  by (simp add: items_InstallDialog)

text \<open>
  C10. \<open>GetFiles\<close> has no precondition: on every dialog state it returns (never
  faults), and what it returns is the stored paths of the rows whose state is
  \<open>Checked\<close>, in row order. The result code of the dialog is not read: accepting,
  rejecting or resizing the dialog does not change the result, and for a dialog
  built by the constructor the result is the checked paths of the input, whatever
  the result code.
\<close>

theorem GetFiles_total_any_time:
  "GetFiles d = Inr (map (\<lambda>it. toString (data_UserRole it))
                  (filter (\<lambda>it. checkState it = Checked) (items (file_list d))))
   \<and> GetFiles (accept d) = GetFiles d
   \<and> GetFiles (reject d) = GetFiles d
   \<and> GetFiles (d\<lparr>result_code := r\<rparr>) = GetFiles d
   \<and> GetFiles (resize w d) = GetFiles d
   \<and> GetFiles ((setCheckStates ops (InstallDialog sizeHintForColumn width0 files))
                 \<lparr>result_code := r\<rparr>)
     = Inr (map fst (filter (\<lambda>p. snd p = Checked)
         (zip files (map checkState (items (file_list
            (setCheckStates ops (InstallDialog sizeHintForColumn width0 files))))))))"
proof -
  let ?d = "setCheckStates ops (InstallDialog sizeHintForColumn width0 files)"
  have a: "GetFiles d = Inr (map (\<lambda>it. toString (data_UserRole it))
                  (filter (\<lambda>it. checkState it = Checked) (items (file_list d))))"
    by (simp add: GetFiles_eq checked_paths_def)
  have b: "GetFiles (accept d) = GetFiles d"
    by (simp add: GetFiles_def accept_def)
  have c: "GetFiles (reject d) = GetFiles d"
    by (simp add: GetFiles_def reject_def)
  have e: "GetFiles (d\<lparr>result_code := r\<rparr>) = GetFiles d"
    by (simp add: GetFiles_def)
  have f: "GetFiles (resize w d) = GetFiles d"
    by (simp add: GetFiles_eq resize_def)
  have "GetFiles (?d\<lparr>result_code := r\<rparr>) = Inr (checked_paths (items (file_list ?d)))"
    by (simp add: GetFiles_eq)
  also have "checked_paths (items (file_list ?d))
      = map fst (filter (\<lambda>p. snd p = Checked)
          (zip files (map checkState (items (file_list ?d)))))"
    using checked_paths_zip[of "items (file_list ?d)"] by (simp only: dialog_paths)
  finally show ?thesis
    using a b c e f by blast
qed

text \<open>The minimum width the constructor sets, and what the accessor reads.\<close>

lemma minimumWidth_InstallDialog:
  "minimumWidth (file_list (InstallDialog h w0 files))
     = max (cdiv (h (map make_item files) * 11) 10) 0"
  by (simp add: InstallDialog_def Let_def setMinimumWidth_def add_items_eq)

lemma GetMinimumWidth_fresh:
  "GetMinimumWidth (InstallDialog h w0 files)
     = max w0 (max (cdiv (h (map make_item files) * 11) 10) 0)"
  by (simp add: InstallDialog_def Let_def setMinimumWidth_def add_items_eq GetMinimumWidth_def)

text \<open>
  C9. The constructor sets the minimum width of the list to
  \<open>(sizeHintForColumn(0) * 11) / 10\<close>, but \<open>GetMinimumWidth\<close> returns the list's
  current width. With a size hint of 100 pixels the minimum width is 110; once the
  list has been laid out 300 pixels wide the accessor returns 300. With a size hint
  of 50 pixels and a list that starts 100 pixels wide the minimum width is 55 and
  the accessor returns 100 right after construction.
\<close>

theorem GetMinimumWidth_returns_current_width:
  "minimumWidth (file_list (resize 300 (InstallDialog (\<lambda>its. 100) 100 [''/a/x.nsp''])))
     = 110
   \<and> GetMinimumWidth (resize 300 (InstallDialog (\<lambda>its. 100) 100 [''/a/x.nsp''])) = 300
   \<and> minimumWidth (file_list (InstallDialog (\<lambda>its. 50) 100 [''/a/x.nsp''])) = 55
   \<and> GetMinimumWidth (InstallDialog (\<lambda>its. 50) 100 [''/a/x.nsp'']) = 100"
  by (simp add: InstallDialog_def Let_def setMinimumWidth_def cdiv_def GetMinimumWidth_def
      resize_def)

section \<open>Properties of the breakpoint list model\<close>

subsection \<open>The highlighted row\<close>

lemma data_BackgroundRole:
  "data s index BackgroundRole =
     (if at_breakpoint s \<and> row index = Event_to_int (active_breakpoint s)
      then Inr (VBrush 0xE0 0xE0 0x10) else Inr NullVariant)"
  by (simp add: data_def)

lemma Event_to_int_range: "0 \<le> Event_to_int e \<and> Event_to_int e \<le> 4"
  by (cases e) simp_all

lemma rows_upto: "[0..rowCount - 1] = [0, 1, 2, 3]"
  by (simp add: rowCount_def upto_rec1)

text \<open>
  C3. A row reports the highlight brush exactly when the cached \<open>at_breakpoint\<close>
  is true and the row is the ordinal of the cached \<open>active_breakpoint\<close>, and
  reports nothing otherwise. So with \<open>at_breakpoint\<close> false no row is highlighted;
  with \<open>at_breakpoint\<close> true the highlighted row indices are exactly the ordinal of
  \<open>active_breakpoint\<close>, and when that is one of the four event kinds it is the only
  highlighted row among the rows \<open>0 .. rowCount - 1\<close> of the model.
\<close>

theorem background_highlight_iff:
  "(data s (createIndex r c) BackgroundRole = Inr (VBrush 0xE0 0xE0 0x10))
     = (at_breakpoint s \<and> r = Event_to_int (active_breakpoint s))
   \<and> (data s (createIndex r c) BackgroundRole = Inr NullVariant)
     = (\<not> (at_breakpoint s \<and> r = Event_to_int (active_breakpoint s)))
   \<and> (\<not> at_breakpoint s \<longrightarrow>
        (\<forall>r' c'. data s (createIndex r' c') BackgroundRole = Inr NullVariant))
   \<and> (at_breakpoint s \<longrightarrow>
        {r'. data s (createIndex r' 0) BackgroundRole = Inr (VBrush 0xE0 0xE0 0x10)}
          = {Event_to_int (active_breakpoint s)})
   \<and> (at_breakpoint s \<and> active_breakpoint s \<noteq> NumEvents \<longrightarrow>
        filter (\<lambda>r'. data s (createIndex r' 0) BackgroundRole = Inr (VBrush 0xE0 0xE0 0x10))
          [0..rowCount - 1] = [Event_to_int (active_breakpoint s)])"
proof -
  have a: "(data s (createIndex r c) BackgroundRole = Inr (VBrush 0xE0 0xE0 0x10))
     = (at_breakpoint s \<and> r = Event_to_int (active_breakpoint s))"
    by (simp add: data_BackgroundRole createIndex_def)
  have b: "(data s (createIndex r c) BackgroundRole = Inr NullVariant)
     = (\<not> (at_breakpoint s \<and> r = Event_to_int (active_breakpoint s)))"
    by (simp add: data_BackgroundRole createIndex_def)
  have c: "\<not> at_breakpoint s \<longrightarrow>
        (\<forall>r' c'. data s (createIndex r' c') BackgroundRole = Inr NullVariant)"
    by (simp add: data_BackgroundRole)
  have d: "at_breakpoint s \<longrightarrow>
        {r'. data s (createIndex r' 0) BackgroundRole = Inr (VBrush 0xE0 0xE0 0x10)}
          = {Event_to_int (active_breakpoint s)}"
    by (auto simp add: data_BackgroundRole createIndex_def)
  have e: "at_breakpoint s \<and> active_breakpoint s \<noteq> NumEvents \<longrightarrow>
        filter (\<lambda>r'. data s (createIndex r' 0) BackgroundRole = Inr (VBrush 0xE0 0xE0 0x10))
          [0..rowCount - 1] = [Event_to_int (active_breakpoint s)]"
    by (cases "active_breakpoint s")
       (simp_all add: rows_upto data_BackgroundRole createIndex_def)
  from a b c d e show ?thesis by blast
qed

theorem background_highlight_iff_witness:
  "at_breakpoint halted_panel \<and> active_breakpoint halted_panel \<noteq> NumEvents
   \<and> filter (\<lambda>r'. data halted_panel (createIndex r' 0) BackgroundRole
                     = Inr (VBrush 0xE0 0xE0 0x10)) [0..rowCount - 1] = [1]
   \<and> {r'. data halted_panel (createIndex r' 0) BackgroundRole = Inr (VBrush 0xE0 0xE0 0x10)}
       = {1}
   \<and> \<not> at_breakpoint (GraphicsBreakPointsWidget all_disabled)
   \<and> (\<forall>r' c'. data (GraphicsBreakPointsWidget all_disabled) (createIndex r' c') BackgroundRole
                 = Inr NullVariant)"
  using background_highlight_iff[of halted_panel 1 0]
    background_highlight_iff[of "GraphicsBreakPointsWidget all_disabled" 0 0]
  by (simp add: halted_panel_def GraphicsBreakPointsWidget_def all_disabled_def)

subsection \<open>Check states\<close>

lemma set_check_state_live:
  assumes "context_weak s = Some ctx" and "in_bounds (breakpoints ctx) r"
  shows "set_check_state r checked s =
     Inr (True,
       s\<lparr>context_weak := Some (ctx\<lparr>breakpoints :=
            (breakpoints ctx)[nat r := (breakpoints ctx ! nat r)\<lparr>enabled := checked\<rparr>]\<rparr>),
         emitted := emitted s @
           [\<lparr>topLeft = createIndex r 0, bottomRight = createIndex r 0,
             at_breakpoint_then = at_breakpoint s,
             active_breakpoint_then = active_breakpoint s\<rparr>]\<rparr>)"
  using assms
  by (simp add: set_check_state_def setData_def createIndex_def emit_dataChanged_def Let_def)

lemma check_state_live:
  assumes "context_weak s = Some ctx" and "in_bounds (breakpoints ctx) k"
  shows "check_state k s =
     Inr (VCheckState (if enabled (breakpoints ctx ! nat k) then Checked else Unchecked))"
  using assms
  by (simp add: check_state_def data_def data_Role_IsEnabled_def createIndex_def)

lemma enabled_update:
  "map enabled (bps[i := (bps ! i)\<lparr>enabled := checked\<rparr>]) = (map enabled bps)[i := checked]"
  by (simp add: map_update)

lemma set_check_states_live:
  assumes "context_weak s = Some ctx"
    and "\<forall>w \<in> set ws. in_bounds (breakpoints ctx) (fst w)"
  shows "\<exists>s' ctx'. set_check_states ws s = Inr s' \<and> context_weak s' = Some ctx'
           \<and> map enabled (breakpoints ctx')
             = foldl (\<lambda>fs w. fs[nat (fst w) := snd w]) (map enabled (breakpoints ctx)) ws"
  using assms
proof (induction ws arbitrary: s ctx)
  case Nil
  then show ?case by simp
next
  case (Cons w ws)
  obtain r checked where w: "w = (r, checked)" by (cases w)
  let ?c1 = "ctx\<lparr>breakpoints :=
            (breakpoints ctx)[nat r := (breakpoints ctx ! nat r)\<lparr>enabled := checked\<rparr>]\<rparr>"
  let ?s1 = "s\<lparr>context_weak := Some ?c1,
         emitted := emitted s @
           [\<lparr>topLeft = createIndex r 0, bottomRight = createIndex r 0,
             at_breakpoint_then = at_breakpoint s,
             active_breakpoint_then = active_breakpoint s\<rparr>]\<rparr>"
  have inb: "in_bounds (breakpoints ctx) r"
    using Cons.prems(2) w by simp
  have step: "set_check_state r checked s = Inr (True, ?s1)"
    by (rule set_check_state_live[OF Cons.prems(1) inb])
  have c1: "context_weak ?s1 = Some ?c1" by simp
  have b1: "\<forall>w \<in> set ws. in_bounds (breakpoints ?c1) (fst w)"
    using Cons.prems(2) by (simp add: in_bounds_def)
  obtain s' ctx' where run: "set_check_states ws ?s1 = Inr s'"
    and cw: "context_weak s' = Some ctx'"
    and fl: "map enabled (breakpoints ctx')
             = foldl (\<lambda>fs w. fs[nat (fst w) := snd w]) (map enabled (breakpoints ?c1)) ws"
    using Cons.IH[OF c1 b1] by blast
  have "set_check_states (w # ws) s = Inr s'"
    using step run w by simp
  moreover have "map enabled (breakpoints ctx')
      = foldl (\<lambda>fs w. fs[nat (fst w) := snd w]) (map enabled (breakpoints ctx)) (w # ws)"
    using fl w by (simp add: enabled_update)
  ultimately show ?case using cw by blast
qed

lemma length_foldl_update:
  "length (foldl (\<lambda>fs w. fs[nat (fst w) := snd w]) fs ws) = length fs"
  by (induction ws arbitrary: fs) simp_all

lemma foldl_last_written:
  assumes "0 \<le> k" and "nat k < length fs" and "\<forall>w \<in> set ws. 0 \<le> fst w"
  shows "foldl (\<lambda>fs w. fs[nat (fst w) := snd w]) fs ws ! nat k
           = (case last_written k ws of Some x \<Rightarrow> x | None \<Rightarrow> fs ! nat k)"
  using assms
proof (induction ws arbitrary: fs)
  case Nil
  then show ?case by simp
next
  case (Cons w ws)
  obtain r checked where w: "w = (r, checked)" by (cases w)
  have r0: "0 \<le> r" using Cons.prems(3) w by simp
  have len: "nat k < length (fs[nat r := checked])" using Cons.prems(2) by simp
  have rest: "\<forall>w \<in> set ws. 0 \<le> fst w" using Cons.prems(3) by simp
  have ih: "foldl (\<lambda>fs w. fs[nat (fst w) := snd w]) (fs[nat r := checked]) ws ! nat k
           = (case last_written k ws of Some x \<Rightarrow> x | None \<Rightarrow> fs[nat r := checked] ! nat k)"
    by (rule Cons.IH[OF Cons.prems(1) len rest])
  have eq: "(nat r = nat k) = (r = k)"
    using r0 Cons.prems(1) by auto
  have upd: "fs[nat r := checked] ! nat k = (if r = k then checked else fs ! nat k)"
    using Cons.prems(2) eq by (simp add: nth_list_update)
  show ?case
    using ih upd w Cons.prems(2) by (simp split: option.splits)
qed

text \<open>
  C2. With the context available and a table of one entry per row, every sequence
  of \<open>set_check_state\<close> calls on rows of the model runs through, and afterwards
  \<open>check_state k\<close> is the last value written to row \<open>k\<close>, or the initial
  \<open>enabled\<close> flag of row \<open>k\<close> when the sequence never wrote it. A write to
  another row succeeds and leaves the \<open>enabled\<close> flag and the check state of row
  \<open>k\<close> as they were.
\<close>

theorem check_state_reads_last_write:
  assumes "context_weak s = Some ctx"
    and "length (breakpoints ctx) = nat rowCount"
    and "\<forall>w \<in> set ws. 0 \<le> fst w \<and> fst w < rowCount"
    and "0 \<le> k" and "k < rowCount"
  shows "(\<exists>s'. set_check_states ws s = Inr s'
            \<and> check_state k s' =
                Inr (VCheckState
                  (if (case last_written k ws of
                         Some checked \<Rightarrow> checked
                       | None \<Rightarrow> enabled (breakpoints ctx ! nat k))
                   then Checked else Unchecked)))
       \<and> (\<forall>r checked. 0 \<le> r \<and> r < rowCount \<and> r \<noteq> k \<longrightarrow>
            (\<exists>s1 ctx1. set_check_state r checked s = Inr (True, s1)
               \<and> context_weak s1 = Some ctx1
               \<and> enabled (breakpoints ctx1 ! nat k) = enabled (breakpoints ctx ! nat k)
               \<and> check_state k s1 = check_state k s))"
proof -
  have kb: "in_bounds (breakpoints ctx) k"
    using assms(2,4,5) by (simp add: in_bounds_def)
  have klen: "nat k < length (map enabled (breakpoints ctx))"
    using assms(2,4,5) by simp
  have wb: "\<forall>w \<in> set ws. in_bounds (breakpoints ctx) (fst w)"
    using assms(2,3) by (auto simp add: in_bounds_def)
  have w0: "\<forall>w \<in> set ws. 0 \<le> fst w"
    using assms(3) by simp
  obtain s' ctx' where run: "set_check_states ws s = Inr s'"
    and cw: "context_weak s' = Some ctx'"
    and fl: "map enabled (breakpoints ctx')
             = foldl (\<lambda>fs w. fs[nat (fst w) := snd w]) (map enabled (breakpoints ctx)) ws"
    using set_check_states_live[OF assms(1) wb] by blast
  have len': "length (breakpoints ctx') = length (breakpoints ctx)"
    using arg_cong[OF fl, of length] by (simp add: length_foldl_update)
  have kb': "in_bounds (breakpoints ctx') k"
    using kb len' by (simp add: in_bounds_def)
  have "enabled (breakpoints ctx' ! nat k) = map enabled (breakpoints ctx') ! nat k"
    using kb' assms(4) by (simp add: in_bounds_def)
  also have "\<dots> = (case last_written k ws of Some x \<Rightarrow> x
                     | None \<Rightarrow> map enabled (breakpoints ctx) ! nat k)"
    unfolding fl by (rule foldl_last_written[OF assms(4) klen w0])
  also have "\<dots> = (case last_written k ws of Some x \<Rightarrow> x
                     | None \<Rightarrow> enabled (breakpoints ctx ! nat k))"
    using klen by (simp split: option.splits)
  finally have en: "enabled (breakpoints ctx' ! nat k)
      = (case last_written k ws of Some x \<Rightarrow> x | None \<Rightarrow> enabled (breakpoints ctx ! nat k))" .
  have first: "\<exists>s'. set_check_states ws s = Inr s'
            \<and> check_state k s' =
                Inr (VCheckState
                  (if (case last_written k ws of
                         Some checked \<Rightarrow> checked
                       | None \<Rightarrow> enabled (breakpoints ctx ! nat k))
                   then Checked else Unchecked))"
    using run check_state_live[OF cw kb'] en by simp
  have second: "\<exists>s1 ctx1. set_check_state r checked s = Inr (True, s1)
               \<and> context_weak s1 = Some ctx1
               \<and> enabled (breakpoints ctx1 ! nat k) = enabled (breakpoints ctx ! nat k)
               \<and> check_state k s1 = check_state k s"
    if r: "0 \<le> r \<and> r < rowCount \<and> r \<noteq> k" for r checked
  proof -
    let ?c1 = "ctx\<lparr>breakpoints :=
            (breakpoints ctx)[nat r := (breakpoints ctx ! nat r)\<lparr>enabled := checked\<rparr>]\<rparr>"
    let ?s1 = "s\<lparr>context_weak := Some ?c1,
         emitted := emitted s @
           [\<lparr>topLeft = createIndex r 0, bottomRight = createIndex r 0,
             at_breakpoint_then = at_breakpoint s,
             active_breakpoint_then = active_breakpoint s\<rparr>]\<rparr>"
    have rb: "in_bounds (breakpoints ctx) r"
      using r assms(2) by (simp add: in_bounds_def)
    have step: "set_check_state r checked s = Inr (True, ?s1)"
      by (rule set_check_state_live[OF assms(1) rb])
    have ne: "nat r \<noteq> nat k" using r assms(4) by auto
    have same: "enabled (breakpoints ?c1 ! nat k) = enabled (breakpoints ctx ! nat k)"
      using ne by simp
    have c1: "context_weak ?s1 = Some ?c1" by simp
    have kb1: "in_bounds (breakpoints ?c1) k"
      using kb by (simp add: in_bounds_def)
    have "check_state k ?s1 = check_state k s"
      using check_state_live[OF c1 kb1] check_state_live[OF assms(1) kb] same by simp
    then show ?thesis using step c1 same by blast
  qed
  show ?thesis using first second by blast
qed

theorem check_state_reads_last_write_witness:
  "context_weak (GraphicsBreakPointsWidget all_disabled) = Some all_disabled
   \<and> length (breakpoints all_disabled) = nat rowCount
   \<and> list_all (\<lambda>w. 0 \<le> fst w \<and> fst w < rowCount) [(2, True), (0, True), (0, False)]
   \<and> (\<exists>s'. set_check_states [(2, True), (0, True), (0, False)]
               (GraphicsBreakPointsWidget all_disabled) = Inr s'
          \<and> check_state 2 s' = Inr (VCheckState Checked))
   \<and> (\<exists>s1 ctx1. set_check_state 0 True (GraphicsBreakPointsWidget all_disabled) = Inr (True, s1)
          \<and> context_weak s1 = Some ctx1
          \<and> enabled (breakpoints ctx1 ! nat 2) = enabled (breakpoints all_disabled ! nat 2))"
proof -
  have h1: "context_weak (GraphicsBreakPointsWidget all_disabled) = Some all_disabled"
    by (simp add: GraphicsBreakPointsWidget_def)
  have h2: "length (breakpoints all_disabled) = nat rowCount"
    by (simp add: all_disabled_def rowCount_def)
  have h3: "\<forall>w \<in> set [(2, True), (0, True), (0, False)]. 0 \<le> fst w \<and> fst w < rowCount"
    by (simp add: rowCount_def)
  have h4: "(0::int) \<le> 2" by simp
  have h5: "2 < rowCount" by (simp add: rowCount_def)
  have lw: "last_written 2 [(2, True), (0, True), (0, False)] = Some True"
    by simp
  note T = check_state_reads_last_write[OF h1 h2 h3 h4 h5]
  have A: "\<exists>s'. set_check_states [(2, True), (0, True), (0, False)]
               (GraphicsBreakPointsWidget all_disabled) = Inr s'
          \<and> check_state 2 s' = Inr (VCheckState Checked)"
    using conjunct1[OF T] by (simp only: lw option.case if_True)
  have r: "(0::int) \<le> 0 \<and> 0 < rowCount \<and> (0::int) \<noteq> 2"
    by (simp add: rowCount_def)
  have B: "\<exists>s1 ctx1. set_check_state 0 True (GraphicsBreakPointsWidget all_disabled) = Inr (True, s1)
          \<and> context_weak s1 = Some ctx1
          \<and> enabled (breakpoints ctx1 ! nat 2) = enabled (breakpoints all_disabled ! nat 2)"
    using conjunct2[OF T, rule_format, OF r, of True] by blast
  have h3': "list_all (\<lambda>w. 0 \<le> fst w \<and> fst w < rowCount) [(2, True), (0, True), (0, False)]"
    by (simp add: rowCount_def)
  show ?thesis
    using h1 h2 h3' A B by blast
qed

text \<open>
  The stored flag is the comparison of the written value with \<open>Qt::Checked\<close>: a
  write of any other value, \<open>Qt::PartiallyChecked\<close> included, reads back unchecked.
\<close>

lemma setData_not_Checked:
  assumes "v \<noteq> VCheckState Checked" and "context_weak s = Some ctx"
    and "in_bounds (breakpoints ctx) r"
  shows "\<exists>s1. setData (createIndex r 0) v CheckStateRole s = Inr (True, s1)
     \<and> check_state r s1 = Inr (VCheckState Unchecked)"
proof -
  have lt: "nat r < length (breakpoints ctx)"
    using assms(3) by (auto simp add: in_bounds_def)
  show ?thesis
    using assms lt
    by (simp add: setData_def createIndex_def Let_def emit_dataChanged_def check_state_def
        data_def data_Role_IsEnabled_def in_bounds_def)
qed

subsection \<open>Indices that are no cell of the model\<close>

text \<open>
  C4, as stated, fails. At the index with row 1 and column 1 of a panel halted at
  row 1 the background read returns the highlight brush, and the read of
  \<open>Role_IsEnabled\<close> returns a bool: neither branch looks at the column. At row 4,
  column 0, with the context alive, the check-state write and the check-state read
  subscript the table outside its four entries.
\<close>

theorem invalid_index_counterexample:
  "invalid_index (createIndex 1 1)
   \<and> data halted_panel (createIndex 1 1) BackgroundRole = Inr (VBrush 0xE0 0xE0 0x10)
   \<and> data halted_panel (createIndex 1 1) BackgroundRole \<noteq> Inr NullVariant
   \<and> data halted_panel (createIndex 1 1) Role_IsEnabled = Inr (VBool False)
   \<and> invalid_index (createIndex 4 0)
   \<and> setData (createIndex 4 0) (VCheckState Checked) CheckStateRole halted_panel
       = Inl OutOfBounds
   \<and> setData (createIndex 4 0) (VCheckState Checked) CheckStateRole halted_panel
       \<noteq> Inr (False, halted_panel)
   \<and> data halted_panel (createIndex 4 0) CheckStateRole = Inl OutOfBounds"
  by (simp add: invalid_index_def createIndex_def rowCount_def data_def data_Role_IsEnabled_def
      setData_def halted_panel_def GraphicsBreakPointsWidget_def all_disabled_def in_bounds_def)

text \<open>
  C4, amended. For an index whose column is not 0 the display read and the
  check-state read return the null variant, and every write returns false and
  leaves the state as it was; a write with a role other than \<open>CheckStateRole\<close>
  does so at every index. At column 0 of a row outside \<open>0 .. rowCount - 1\<close> the
  display read returns the empty text. The background read does not look at the
  column: it is null exactly when not both \<open>at_breakpoint\<close> holds and the row is
  the ordinal of \<open>active_breakpoint\<close>. Reads of other roles are null. On the
  toolkit's invalid index \<open>QModelIndex()\<close> the display, check-state and background
  reads are null, every write returns false without a change, and the flags are
  empty.
\<close>

theorem invalid_index_behaviour:
  "(column index \<noteq> 0 \<longrightarrow>
      data s index DisplayRole = Inr NullVariant
      \<and> data s index CheckStateRole = Inr NullVariant
      \<and> setData index v role s = Inr (False, s))
   \<and> (role \<noteq> CheckStateRole \<longrightarrow> setData index v role s = Inr (False, s))
   \<and> ((row index < 0 \<or> rowCount \<le> row index) \<and> column index = 0 \<longrightarrow>
        data s index DisplayRole = Inr (VString []))
   \<and> (data s index BackgroundRole = Inr NullVariant)
       = (\<not> (at_breakpoint s \<and> row index = Event_to_int (active_breakpoint s)))
   \<and> data s index (OtherRole n) = Inr NullVariant
   \<and> data s QModelIndex_invalid DisplayRole = Inr NullVariant
   \<and> data s QModelIndex_invalid CheckStateRole = Inr NullVariant
   \<and> data s QModelIndex_invalid BackgroundRole = Inr NullVariant
   \<and> setData QModelIndex_invalid v role s = Inr (False, s)
   \<and> flags QModelIndex_invalid = {}"
proof -
  have a: "column index \<noteq> 0 \<longrightarrow>
      data s index DisplayRole = Inr NullVariant
      \<and> data s index CheckStateRole = Inr NullVariant
      \<and> setData index v role s = Inr (False, s)"
    by (simp add: data_def setData_def split: ItemDataRole.splits)
  have b: "role \<noteq> CheckStateRole \<longrightarrow> setData index v role s = Inr (False, s)"
    by (simp add: setData_def split: ItemDataRole.splits)
  have c: "(row index < 0 \<or> rowCount \<le> row index) \<and> column index = 0 \<longrightarrow>
        data s index DisplayRole = Inr (VString [])"
    by (auto simp add: data_def rowCount_def Event_of_int_def display_map_def)
  have d: "(data s index BackgroundRole = Inr NullVariant)
       = (\<not> (at_breakpoint s \<and> row index = Event_to_int (active_breakpoint s)))"
    by (simp add: data_def)
  have e: "data s index (OtherRole n) = Inr NullVariant"
    by (simp add: data_def)
  have neg: "Event_to_int (active_breakpoint s) \<noteq> - 1"
    by (cases "active_breakpoint s") simp_all
  have f: "data s QModelIndex_invalid DisplayRole = Inr NullVariant
   \<and> data s QModelIndex_invalid CheckStateRole = Inr NullVariant
   \<and> data s QModelIndex_invalid BackgroundRole = Inr NullVariant"
    using neg by (simp add: data_def QModelIndex_invalid_def)
  have g: "setData QModelIndex_invalid v role s = Inr (False, s)"
    by (simp add: setData_def QModelIndex_invalid_def split: ItemDataRole.splits)
  have h: "flags QModelIndex_invalid = {}"
    by (simp add: flags_def isValid_def QModelIndex_invalid_def)
  from a b c d e f g h show ?thesis by blast
qed

theorem invalid_index_behaviour_witness:
  "column (createIndex 1 1) \<noteq> 0
   \<and> data halted_panel (createIndex 1 1) DisplayRole = Inr NullVariant
   \<and> data halted_panel (createIndex 1 1) CheckStateRole = Inr NullVariant
   \<and> setData (createIndex 1 1) (VCheckState Checked) CheckStateRole halted_panel
       = Inr (False, halted_panel)
   \<and> DisplayRole \<noteq> CheckStateRole
   \<and> setData (createIndex 1 0) (VString ''x'') DisplayRole halted_panel
       = Inr (False, halted_panel)
   \<and> rowCount \<le> row (createIndex 7 0) \<and> column (createIndex 7 0) = 0
   \<and> data halted_panel (createIndex 7 0) DisplayRole = Inr (VString [])"
  using invalid_index_behaviour[of "createIndex 1 1" halted_panel "VCheckState Checked"
      CheckStateRole 0]
    invalid_index_behaviour[of "createIndex 1 0" halted_panel "VString ''x''" DisplayRole 0]
    invalid_index_behaviour[of "createIndex 7 0" halted_panel "VString ''x''" DisplayRole 0]
  by (simp add: createIndex_def rowCount_def)

subsection \<open>Dead context\<close>

text \<open>
  C5. When the weak pointer cannot be promoted, \<open>setData\<close> returns false and
  leaves the whole state, the trace of emissions included, as it was; the
  check-state read of a row is unchecked (and is never checked at any index);
  \<open>OnResumeRequested\<close> changes nothing; the model's two event handlers return the
  state unchanged, and so does a double click. After the full delivery of a hit or
  resume event the cached \<open>at_breakpoint\<close> and \<open>active_breakpoint\<close> and the
  trace of emissions are what they were.
\<close>

theorem dead_context_no_op:
  assumes "context_weak s = None"
  shows "setData index v role s = Inr (False, s)
       \<and> data s (createIndex r 0) CheckStateRole = Inr (VCheckState Unchecked)
       \<and> data s index CheckStateRole \<noteq> Inr (VCheckState Checked)
       \<and> OnResumeRequested Resume s = s
       \<and> BreakPointModel_OnBreakPointHit event s = s
       \<and> BreakPointModel_OnResumed s = s
       \<and> OnItemDoubleClicked index s = Inr s
       \<and> at_breakpoint (OnMaxwellBreakPointHit event s) = at_breakpoint s
       \<and> active_breakpoint (OnMaxwellBreakPointHit event s) = active_breakpoint s
       \<and> emitted (OnMaxwellBreakPointHit event s) = emitted s
       \<and> at_breakpoint (OnMaxwellResume s) = at_breakpoint s
       \<and> active_breakpoint (OnMaxwellResume s) = active_breakpoint s
       \<and> emitted (OnMaxwellResume s) = emitted s"
proof -
  have sd: "\<And>i w ro. setData i w ro s = Inr (False, s)"
    using assms by (simp add: setData_def split: ItemDataRole.splits)
  have rd: "\<And>i. data s i CheckStateRole =
              (if column i = 0 then Inr (VCheckState Unchecked) else Inr NullVariant)"
    using assms by (simp add: data_def data_Role_IsEnabled_def)
  have dc: "OnItemDoubleClicked index s = Inr s"
    by (simp add: OnItemDoubleClicked_def Let_def sd rd)
  show ?thesis
    using assms dc
    by (simp add: sd rd createIndex_def OnResumeRequested_def
        BreakPointModel_OnBreakPointHit_def BreakPointModel_OnResumed_def
        OnMaxwellBreakPointHit_def OnMaxwellResume_def Widget_OnBreakPointHit_def
        Widget_OnResumed_def)
qed

theorem dead_context_no_op_witness:
  "context_weak dead_panel = None
   \<and> setData (createIndex 2 0) (VCheckState Checked) CheckStateRole dead_panel
       = Inr (False, dead_panel)
   \<and> data dead_panel (createIndex 2 0) CheckStateRole = Inr (VCheckState Unchecked)
   \<and> OnResumeRequested (\<lambda>c. c\<lparr>ctx_at_breakpoint := False\<rparr>) dead_panel = dead_panel
   \<and> BreakPointModel_OnBreakPointHit IncomingPrimitiveBatch dead_panel = dead_panel
   \<and> BreakPointModel_OnResumed dead_panel = dead_panel"
proof -
  have h: "context_weak dead_panel = None"
    by (simp add: dead_panel_def)
  show ?thesis
    using h dead_context_no_op[OF h, of "createIndex 2 0" "VCheckState Checked" CheckStateRole
        2 "\<lambda>c. c\<lparr>ctx_at_breakpoint := False\<rparr>" IncomingPrimitiveBatch]
    by simp
qed

subsection \<open>The order of statements in the resume handler\<close>




end
